theory Spec2Isabelle
  imports Complex_Main "HOL-Library.Word"
begin

unbundle bit_operations_syntax

section \<open>Tile grid enumeration\<close>

text \<open>
  Python's \<open>range(a, b)\<close> over integers: \<open>a, a + 1, ..., b - 1\<close>, empty when
  \<open>b \<le> a\<close>.
\<close>

definition py_range :: "int \<Rightarrow> int \<Rightarrow> int list" where
  "py_range a b = [a..b - 1]"

text \<open>
  The two nested loops of \<open>generate_sf_tiles\<close>
  (\<open>for dx in range(-padding, padding + 1): for dy in range(-padding, padding + 1)\<close>),
  with the coordinate \<open>x, y = cx + dx, cy + dy\<close> computed in the body, in visiting order.
\<close>

definition grid_tiles :: "int \<Rightarrow> int \<Rightarrow> int \<Rightarrow> (int \<times> int) list" where
  "grid_tiles cx cy padding =
     concat (map (\<lambda>dx. map (\<lambda>dy. (cx + dx, cy + dy)) (py_range (- padding) (padding + 1)))
                 (py_range (- padding) (padding + 1)))"

section \<open>Raster images\<close>

text \<open>
  A Pillow image of mode \<open>RGB\<close> is a rectangle of pixels, each a triple of unsigned
  8-bit channel values. A numpy array of shape \<open>(height, width, 3)\<close> and dtype
  \<open>float32\<close> has the same layout with a number per channel, each a real number that
  binary32 represents. The pixels are stored in row-major order.
\<close>

type_synonym u8 = "8 word"
type_synonym 'a rgb = "'a \<times> 'a \<times> 'a"

record 'a raster =
  width :: nat
  height :: nat
  cells :: "'a rgb list"

type_synonym image = "u8 raster"
type_synonym ndarray = "real raster"

definition map_rgb :: "('a \<Rightarrow> 'b) \<Rightarrow> 'a rgb \<Rightarrow> 'b rgb" where
  "map_rgb f p = (case p of (r, g, b) \<Rightarrow> (f r, f g, f b))"

definition map_pixels :: "('a rgb \<Rightarrow> 'b rgb) \<Rightarrow> 'a raster \<Rightarrow> 'b raster" where
  "map_pixels f a = \<lparr>width = width a, height = height a, cells = map f (cells a)\<rparr>"

text \<open>
  The operations of Pillow that \<open>apply_skin\<close> calls and whose code is neighbourhood
  filtering inside the library: \<open>Image.filter(ImageFilter.GaussianBlur(radius))\<close>,
  \<open>ImageEnhance.Color(img).enhance(factor)\<close> and \<open>Image.resize(size, Image.LANCZOS)\<close>.
  They are parameters of the model: functions from images to images.
\<close>

record pillow =
  gaussian_blur :: "real \<Rightarrow> image \<Rightarrow> image"
  enhance_color :: "image \<Rightarrow> real \<Rightarrow> image"
  resize_lanczos :: "image \<Rightarrow> nat \<times> nat \<Rightarrow> image"

text \<open>
  \<open>ImageOps.posterize(image, bits)\<close> is a table lookup per channel; Pillow builds the table
  as \<open>mask = ~(2 ** (8 - bits) - 1); lut = [i & mask for i in range(256)]\<close>.
\<close>

definition posterize_lut :: "nat \<Rightarrow> u8 \<Rightarrow> u8" where
  "posterize_lut bits i = (let mask = NOT (2 ^ (8 - bits) - 1) in i AND mask)"

definition posterize :: "image \<Rightarrow> nat \<Rightarrow> image" where
  "posterize img bits = map_pixels (map_rgb (posterize_lut bits)) img"

section \<open>Array arithmetic of the pipeline\<close>

text \<open>\<open>np.array(img, dtype=np.float32)\<close>: every channel value as a number.\<close>

definition np_array :: "image \<Rightarrow> ndarray" where
  "np_array img = map_pixels (map_rgb (\<lambda>c. real (unat c))) img"

text \<open>
  \<open>arr.astype(np.uint8)\<close>: the fractional part is dropped (rounding towards zero) and
  the integer is reduced to 8 bits.
\<close>

definition trunc :: "real \<Rightarrow> int" where
  "trunc x = (if 0 \<le> x then \<lfloor>x\<rfloor> else \<lceil>x\<rceil>)"

definition to_uint8 :: "real \<Rightarrow> u8" where
  "to_uint8 x = word_of_int (trunc x)"

definition astype_uint8 :: "ndarray \<Rightarrow> image" where
  "astype_uint8 a = map_pixels (map_rgb to_uint8) a"

text \<open>
  numpy computes on \<open>float32\<close> arrays in IEEE 754 binary32, every operation rounded to
  nearest with ties to even. \<open>rne\<close> is that rounding to an integer; \<open>round32\<close> rounds
  a real number to 24 significant bits. The pipeline's numbers stay far inside the
  exponent range of binary32, so subnormal numbers and overflow are left out.
\<close>

definition rne :: "real \<Rightarrow> int" where
  "rne x = (let f = \<lfloor>x\<rfloor>
            in if x - of_int f < 1 / 2 then f
               else if x - of_int f > 1 / 2 then f + 1
               else if even f then f else f + 1)"

definition round32 :: "real \<Rightarrow> real" where
  "round32 x =
     (if x = 0 then 0
      else (let e = \<lfloor>log 2 \<bar>x\<bar>\<rfloor> - 23
            in of_int (rne (x / 2 powr of_int e)) * 2 powr of_int e))"

text \<open>
  A sum accumulated in binary32, element after element. (Whenever all partial sums are
  integers up to \<open>2 ^ 24\<close>, as for the channel sums of an image of at most 65793 pixels,
  every order of accumulation gives the same, exact, sum.)
\<close>

definition f32_sum :: "real list \<Rightarrow> real" where
  "f32_sum xs = foldl (\<lambda>acc v. round32 (acc + v)) 0 xs"

text \<open>
  \<open>arr.mean(axis=(0, 1))\<close>: for each channel the binary32 sum over all pixels, divided
  in binary32 by the number of pixels. On an array with no pixels numpy returns
  \<open>nan\<close>, modelled as \<open>None\<close>.
\<close>

definition np_mean :: "ndarray \<Rightarrow> real rgb option" where
  "np_mean a =
     (if cells a = [] then None
      else (let n = round32 (real (length (cells a)))
            in Some (round32 (f32_sum (map fst (cells a)) / n),
                     round32 (f32_sum (map (fst \<circ> snd) (cells a)) / n),
                     round32 (f32_sum (map (snd \<circ> snd) (cells a)) / n))))"

text \<open>Subtraction and addition of two \<open>float32\<close> vectors of three numbers.\<close>

definition sub_rgb :: "real rgb \<Rightarrow> real rgb \<Rightarrow> real rgb" where
  "sub_rgb p q =
     (case (p, q) of ((r, g, b), (r', g', b')) \<Rightarrow>
        (round32 (r - r'), round32 (g - g'), round32 (b - b')))"

definition add_rgb :: "real rgb \<Rightarrow> real rgb \<Rightarrow> real rgb" where
  "add_rgb p q =
     (case (p, q) of ((r, g, b), (r', g', b')) \<Rightarrow>
        (round32 (r + r'), round32 (g + g'), round32 (b + b')))"

text \<open>
  \<open>np.linalg.norm\<close> of a \<open>float32\<close> vector of three numbers: the square root of the
  dot product of the vector with itself, the dot product accumulated in binary32.
\<close>

definition linalg_norm :: "real rgb \<Rightarrow> real" where
  "linalg_norm p =
     (case p of (r, g, b) \<Rightarrow>
        round32 (sqrt (round32 (round32 (round32 (r * r) + round32 (g * g))
                                + round32 (b * b)))))"

definition np_clip :: "real \<Rightarrow> real \<Rightarrow> real \<Rightarrow> real" where
  "np_clip x lo hi = min (max x lo) hi"

section \<open>The skinning pipeline\<close>

text \<open>
  Step 3 of \<open>apply_skin\<close>, from the downscaled vibe image and the posterized tile to
  \<open>influenced_img\<close>. A comparison with \<open>nan\<close> is false, so a missing mean takes the
  branch without shift.
\<close>

definition vibe_influence :: "image \<Rightarrow> image \<Rightarrow> image" where
  "vibe_influence vibe_small posterized =
     (let vibe_arr = np_array vibe_small;
          post_arr = np_array posterized
      in case (np_mean vibe_arr, np_mean post_arr) of
           (Some vibe_mean, Some post_mean) \<Rightarrow>
             if linalg_norm (sub_rgb vibe_mean post_mean) > 20
             then (let shift = map_rgb (\<lambda>d. round32 (d * round32 0.15))
                                 (sub_rgb vibe_mean post_mean)
                   in astype_uint8
                        (map_pixels (\<lambda>p. map_rgb (\<lambda>v. np_clip v 0 255) (add_rgb p shift))
                           post_arr))
             else astype_uint8 post_arr
         | _ \<Rightarrow> astype_uint8 post_arr)"

text \<open>
  Step 4: \<open>np.clip(final_arr * 1.1 + 5, 0, 255)\<close>, then \<open>astype(np.uint8)\<close>. The
  argument is one of the 256 channel values; this stage is written with the exact product
  and sum.
\<close>

definition brightness_boost :: "image \<Rightarrow> image" where
  "brightness_boost influenced_img =
     astype_uint8
       (map_pixels (map_rgb (\<lambda>v. np_clip (v * 1.1 + 5) 0 255)) (np_array influenced_img))"

text \<open>
  The image computation of \<open>apply_skin\<close>, from the two decoded images to \<open>result\<close>:
  two blurs of radius 1.0, the colour enhancement by 1.8, the posterization to 4 bits,
  the vibe influence and the brightness boost.
\<close>

definition skin_image :: "pillow \<Rightarrow> image \<Rightarrow> image \<Rightarrow> image" where
  "skin_image L tile_img vibe_img =
     (let smoothed = gaussian_blur L 1.0 (gaussian_blur L 1.0 tile_img);
          saturated = enhance_color L smoothed 1.8;
          posterized = posterize saturated 4;
          vibe_small = resize_lanczos L vibe_img (32, 32)
      in brightness_boost (vibe_influence vibe_small posterized))"

text \<open>All channel values of an image or array, pixel by pixel.\<close>

definition channels :: "'a raster \<Rightarrow> 'a list" where
  "channels a = concat (map (\<lambda>(r, g, b). [r, g, b]) (cells a))"

section \<open>Single-colour images\<close>

text \<open>An image of the given size whose pixels all have one colour.\<close>

definition flat_image :: "nat \<Rightarrow> nat \<Rightarrow> u8 rgb \<Rightarrow> image" where
  "flat_image w h c = \<lparr>width = w, height = h, cells = replicate (w * h) c\<rparr>"

text \<open>
  What Pillow's three operations do to an image of a single grey colour \<open>(v, v, v)\<close>:
  the Gaussian blur averages equal values and returns the image; the colour enhancement
  blends the image with its own luminance, which for a grey pixel is the pixel itself;
  the resize returns the same colour at the requested size. This instance is used to
  evaluate the pipeline on such images only.
\<close>

definition pillow_on_grey :: pillow where
  "pillow_on_grey =
     \<lparr>gaussian_blur = (\<lambda>radius img. img),
      enhance_color = (\<lambda>img factor. img),
      resize_lanczos = (\<lambda>img size. case (cells img, size) of
                           (c # _, (w, h)) \<Rightarrow> flat_image w h c
                         | ([], _) \<Rightarrow> img)\<rparr>"

section \<open>Files, the network and printed lines\<close>

text \<open>
  A file holds an image that Pillow decodes (alpha already dropped by \<open>convert("RGB")\<close>)
  or bytes that it cannot decode, such as the empty file.
\<close>

type_synonym path = string

datatype file_content = Png image | Undecodable

text \<open>The exceptions that the modelled functions let escape.\<close>

datatype error = FileNotFoundError | UnidentifiedImageError | OSError | ValueError | ZeroDivisionError

text \<open>The lines written by \<open>print\<close>, one constructor per message.\<close>

datatype event =
    Saved path
  | Downloaded int int int path
  | Failed int int int
  | Generating int int int
  | Complete

text \<open>
  The state outside the program: the files by path; for which paths
  \<open>os.makedirs(os.path.dirname(os.path.abspath(path)), exist_ok=True)\<close> raises; for
  which paths opening the file for writing raises; and the lines printed so far.
\<close>

record world =
  files :: "path \<rightharpoonup> file_content"
  makedirs_fails :: "path \<Rightarrow> bool"
  open_fails :: "path \<Rightarrow> bool"
  stdout :: "event list"

text \<open>
  What the tile server does for one request inside the \<open>try\<close> block of
  \<open>download_osm_tile\<close>: \<open>urlopen\<close> raises, or it answers and \<open>response.read()\<close>
  raises, or the body arrives.
\<close>

datatype fetch_outcome = Urlopen_raises | Read_raises | Body file_content

definition print :: "event \<Rightarrow> world \<Rightarrow> world" where
  "print e w = w\<lparr>stdout := stdout w @ [e]\<rparr>"

text \<open>\<open>Image.open(path).convert("RGB")\<close>.\<close>

definition open_rgb :: "world \<Rightarrow> path \<Rightarrow> error + image" where
  "open_rgb w p =
     (case files w p of
        None \<Rightarrow> Inl FileNotFoundError
      | Some Undecodable \<Rightarrow> Inl UnidentifiedImageError
      | Some (Png img) \<Rightarrow> Inr img)"

text \<open>
  \<open>apply_skin(tile_path, vibe_path, output_path)\<close>: both images are loaded, the result
  is computed, the output directory is made and the result saved. No exception is caught.
\<close>

definition apply_skin :: "pillow \<Rightarrow> world \<Rightarrow> path \<Rightarrow> path \<Rightarrow> path \<Rightarrow> error + world" where
  "apply_skin L w tile_path vibe_path output_path =
     (case open_rgb w tile_path of
        Inl e \<Rightarrow> Inl e
      | Inr tile_img \<Rightarrow>
          (case open_rgb w vibe_path of
             Inl e \<Rightarrow> Inl e
           | Inr vibe_img \<Rightarrow>
               (let result = skin_image L tile_img vibe_img
                in if makedirs_fails w output_path \<or> open_fails w output_path then Inl OSError
                   else Inr (print (Saved output_path)
                               (w\<lparr>files := (files w)(output_path \<mapsto> Png result)\<rparr>)))))"

text \<open>
  \<open>download_osm_tile(z, x, y, output_path)\<close>. \<open>os.makedirs\<close> is called before the
  \<open>try\<close>; inside it, \<open>urlopen\<close> comes first, then \<open>open(output_path, "wb")\<close>, which
  creates the file, then \<open>response.read()\<close> and the write. Every \<open>Exception\<close> raised
  inside the \<open>try\<close> is caught and gives \<open>False\<close>.
\<close>

definition download_osm_tile ::
  "(int \<times> int \<times> int \<Rightarrow> fetch_outcome) \<Rightarrow> world \<Rightarrow> int \<Rightarrow> int \<Rightarrow> int \<Rightarrow> path
     \<Rightarrow> error + bool \<times> world" where
  "download_osm_tile fetch w z x y output_path =
     (if makedirs_fails w output_path then Inl OSError
      else case fetch (z, x, y) of
             Urlopen_raises \<Rightarrow> Inr (False, print (Failed z x y) w)
           | Read_raises \<Rightarrow>
               if open_fails w output_path then Inr (False, print (Failed z x y) w)
               else Inr (False, print (Failed z x y)
                                  (w\<lparr>files := (files w)(output_path \<mapsto> Undecodable)\<rparr>))
           | Body data \<Rightarrow>
               if open_fails w output_path then Inr (False, print (Failed z x y) w)
               else Inr (True, print (Downloaded z x y output_path)
                                 (w\<lparr>files := (files w)(output_path \<mapsto> data)\<rparr>)))"

section \<open>Paths of the tiles\<close>

text \<open>\<open>str\<close> of an integer: its decimal digits, with a minus sign when negative.\<close>

fun dec :: "nat \<Rightarrow> string" where
  "dec n = (if n < 10 then [''0123456789'' ! n] else dec (n div 10) @ [''0123456789'' ! (n mod 10)])"

definition py_str :: "int \<Rightarrow> string" where
  "py_str i = (if i < 0 then CHR ''-'' # dec (nat (- i)) else dec (nat i))"

text \<open>
  \<open>str(raw_dir / str(zoom) / str(x) / f"{y}.png")\<close> with
  \<open>raw_dir = Path(assets_dir) / "skins" / "_raw_tiles"\<close>, and the same under
  \<open>"cartoon"\<close> for the output.
\<close>

definition raw_path :: "string \<Rightarrow> int \<Rightarrow> int \<Rightarrow> int \<Rightarrow> path" where
  "raw_path assets_dir zoom x y =
     assets_dir @ ''/skins/_raw_tiles/'' @ py_str zoom @ ''/'' @ py_str x @ ''/'' @ py_str y @ ''.png''"

definition cartoon_path :: "string \<Rightarrow> int \<Rightarrow> int \<Rightarrow> int \<Rightarrow> path" where
  "cartoon_path assets_dir zoom x y =
     assets_dir @ ''/skins/cartoon/'' @ py_str zoom @ ''/'' @ py_str x @ ''/'' @ py_str y @ ''.png''"

section \<open>Tile coordinates and the batch\<close>

text \<open>
  \<open>lat_lon_to_tile(lat, lon, zoom)\<close> over the reals; \<open>int(...)\<close> drops the fractional
  part. \<open>math.log\<close> raises \<open>ValueError\<close> on an argument that is not positive, and a
  division by zero raises \<open>ZeroDivisionError\<close>.
\<close>

definition lat_lon_to_tile :: "real \<Rightarrow> real \<Rightarrow> nat \<Rightarrow> error + int \<times> int" where
  "lat_lon_to_tile lat lon zoom =
     (let num_tiles = 2 ^ zoom;
          x = trunc ((lon + 180) / 360 * num_tiles);
          lat_rad = lat * pi / 180
      in if cos lat_rad = 0 then Inl ZeroDivisionError
         else if tan lat_rad + 1 / cos lat_rad \<le> 0 then Inl ValueError
         else Inr (x, trunc ((1 - ln (tan lat_rad + 1 / cos lat_rad) / pi) / 2 * num_tiles)))"

text \<open>A \<open>for\<close> loop whose body may raise: the first exception ends the loop.\<close>

fun for_each :: "('a \<Rightarrow> 'w \<Rightarrow> 'e + 'w) \<Rightarrow> 'a list \<Rightarrow> 'w \<Rightarrow> 'e + 'w" where
  "for_each body [] w = Inr w"
| "for_each body (a # as) w =
     (case body a w of Inl e \<Rightarrow> Inl e | Inr w' \<Rightarrow> for_each body as w')"

text \<open>
  The body of the inner loop of \<open>generate_sf_tiles\<close> for the tile \<open>(x, y)\<close>:
  download the raw tile if its file does not exist and \<open>continue\<close> when the download
  returns \<open>False\<close>; otherwise apply the skin.
\<close>

definition process_tile ::
  "pillow \<Rightarrow> (int \<times> int \<times> int \<Rightarrow> fetch_outcome) \<Rightarrow> string \<Rightarrow> path \<Rightarrow> int \<Rightarrow> int \<times> int
     \<Rightarrow> world \<Rightarrow> error + world" where
  "process_tile L fetch assets_dir vibe_path zoom t w =
     (case t of (x, y) \<Rightarrow>
        (let raw = raw_path assets_dir zoom x y;
             output_path = cartoon_path assets_dir zoom x y
         in if files w raw = None
            then (case download_osm_tile fetch w zoom x y raw of
                    Inl e \<Rightarrow> Inl e
                  | Inr (ok, w') \<Rightarrow>
                      if \<not> ok then Inr w'
                      else apply_skin L w' raw vibe_path output_path)
            else apply_skin L w raw vibe_path output_path))"

text \<open>The zoom levels with their padding, and the loops over them.\<close>

definition zoom_configs :: "(nat \<times> int) list" where
  "zoom_configs = [(13, 1), (14, 1), (15, 2)]"

definition generate_zoom ::
  "pillow \<Rightarrow> (int \<times> int \<times> int \<Rightarrow> fetch_outcome) \<Rightarrow> string \<Rightarrow> path \<Rightarrow> nat \<times> int
     \<Rightarrow> world \<Rightarrow> error + world" where
  "generate_zoom L fetch assets_dir vibe_path config w =
     (case config of (zoom, padding) \<Rightarrow>
        (case lat_lon_to_tile 37.78825 (- 122.4324) zoom of
           Inl e \<Rightarrow> Inl e
         | Inr (cx, cy) \<Rightarrow>
             for_each (process_tile L fetch assets_dir vibe_path (int zoom))
               (grid_tiles cx cy padding) (print (Generating (int zoom) cx cy) w)))"

definition generate_sf_tiles ::
  "pillow \<Rightarrow> (int \<times> int \<times> int \<Rightarrow> fetch_outcome) \<Rightarrow> world \<Rightarrow> string \<Rightarrow> path
     \<Rightarrow> error + world" where
  "generate_sf_tiles L fetch w assets_dir vibe_path =
     (case for_each (generate_zoom L fetch assets_dir vibe_path) zoom_configs w of
        Inl e \<Rightarrow> Inl e
      | Inr w' \<Rightarrow> Inr (print Complete w'))"

section \<open>Pillow's colour enhancement\<close>

text \<open>
  \<open>ImageEnhance.Color(image).enhance(factor)\<close> is, in Pillow,
  \<open>Image.blend(degenerate, image, factor)\<close> with
  \<open>degenerate = image.convert("L").convert(image.mode)\<close>. The conversion to mode \<open>L\<close> takes
  a pixel to its luminance, \<open>(R * 19595 + G * 38470 + B * 7471 + 0x8000) >> 16\<close>, and the
  conversion back repeats it in the three channels.
\<close>

definition rgb2l :: "u8 rgb \<Rightarrow> u8" where
  "rgb2l p =
     (case p of (r, g, b) \<Rightarrow>
        word_of_nat ((unat r * 19595 + unat g * 38470 + unat b * 7471 + 32768) div 65536))"

definition degenerate :: "image \<Rightarrow> image" where
  "degenerate img = map_pixels (\<lambda>p. (rgb2l p, rgb2l p, rgb2l p)) img"

text \<open>
  \<open>Image.blend(im1, im2, alpha)\<close> is \<open>ImagingBlend\<close>, with \<open>alpha\<close> converted to a C
  \<open>float\<close>. It returns a copy of \<open>im1\<close> for \<open>alpha == 0.0\<close> and of \<open>im2\<close> for
  \<open>alpha == 1.0\<close>. Otherwise every channel is
  \<open>temp = (float)((int)in1[x] + alpha * ((int)in2[x] - (int)in1[x]))\<close>, computed in
  binary32: for \<open>alpha\<close> between 0 and 1 the result is \<open>(UINT8)temp\<close>; for an \<open>alpha\<close>
  outside, an extrapolation, the result is 0 if \<open>temp <= 0.0\<close>, 255 if \<open>temp >= 255.0\<close>
  and \<open>(UINT8)temp\<close> else.
\<close>

definition blend_channel :: "real \<Rightarrow> u8 \<Rightarrow> u8 \<Rightarrow> u8" where
  "blend_channel alpha in1 in2 =
     (let temp = round32 (real (unat in1)
                          + round32 (alpha * (real (unat in2) - real (unat in1))))
      in if 0 \<le> alpha \<and> alpha \<le> 1 then to_uint8 temp
         else if temp \<le> 0 then 0
         else if temp \<ge> 255 then 255
         else to_uint8 temp)"

definition blend :: "image \<Rightarrow> image \<Rightarrow> real \<Rightarrow> image" where
  "blend im1 im2 factor =
     (let alpha = round32 factor
      in if alpha = 0 then im1
         else if alpha = 1 then im2
         else \<lparr>width = width im1, height = height im1,
               cells = map2 (\<lambda>p q. case (p, q) of ((r1, g1, b1), (r2, g2, b2)) \<Rightarrow>
                                (blend_channel alpha r1 r2,
                                 blend_channel alpha g1 g2,
                                 blend_channel alpha b1 b2))
                         (cells im1) (cells im2)\<rparr>)"

definition color_enhance :: "image \<Rightarrow> real \<Rightarrow> image" where
  "color_enhance img factor = blend (degenerate img) img factor"

text \<open>
  Pillow on the images of a single colour, of any colour: the Gaussian blur returns the
  image, the resize returns the same colour at the requested size, and the colour
  enhancement is the blend above.
\<close>

definition pillow_on_flat :: pillow where
  "pillow_on_flat =
     \<lparr>gaussian_blur = (\<lambda>radius img. img),
      enhance_color = color_enhance,
      resize_lanczos = (\<lambda>img size. case (cells img, size) of
                           (c # _, (w, h)) \<Rightarrow> flat_image w h c
                         | ([], _) \<Rightarrow> img)\<rparr>"

section \<open>Properties of the grid enumeration\<close>

lemma length_py_range: "length (py_range a b) = nat (b - a)"
  by (simp add: py_range_def)

lemma length_grid_tiles: "length (grid_tiles cx cy p) = nat (2 * p + 1) * nat (2 * p + 1)"
  by (simp add: grid_tiles_def length_concat comp_def length_py_range sum_list_triv)

lemma distinct_grid_tiles: "distinct (grid_tiles cx cy p)"
  unfolding grid_tiles_def
  by (rule distinct_concat) (auto simp: distinct_map inj_on_def py_range_def)

lemma set_grid_tiles:
  "set (grid_tiles cx cy p) =
     {(cx + dx, cy + dy) | dx dy. - p \<le> dx \<and> dx \<le> p \<and> - p \<le> dy \<and> dy \<le> p}"
  by (auto simp: grid_tiles_def py_range_def)

text \<open>
  C8. For every centre tile \<open>(cx, cy)\<close> and every padding \<open>p \<ge> 0\<close> the enumeration
  yields exactly \<open>(2p+1)\<^sup>2\<close> coordinates, namely all pairs \<open>(cx + dx, cy + dy)\<close> with
  \<open>dx, dy\<close> in \<open>[-p, p]\<close>; no pair is visited twice and none is left out.
\<close>

theorem grid_tiles_complete:
  assumes "0 \<le> p"
  shows "int (length (grid_tiles cx cy p)) = (2 * p + 1)\<^sup>2
       \<and> distinct (grid_tiles cx cy p)
       \<and> set (grid_tiles cx cy p) =
           {(cx + dx, cy + dy) | dx dy. - p \<le> dx \<and> dx \<le> p \<and> - p \<le> dy \<and> dy \<le> p}"
proof -
  have "int (nat (2 * p + 1) * nat (2 * p + 1)) = (2 * p + 1) * (2 * p + 1)"
    using assms by simp
  then have "int (length (grid_tiles cx cy p)) = (2 * p + 1)\<^sup>2"
    by (simp only: length_grid_tiles power2_eq_square)
  then show ?thesis
    using distinct_grid_tiles set_grid_tiles by blast
qed

theorem grid_tiles_complete_witness:
  "(0::int) \<le> 1
   \<and> int (length (grid_tiles 2619 6331 1)) = (2 * 1 + 1)\<^sup>2
   \<and> distinct (grid_tiles 2619 6331 1)
   \<and> grid_tiles 2619 6331 1 =
       [(2618, 6330), (2618, 6331), (2618, 6332),
        (2619, 6330), (2619, 6331), (2619, 6332),
        (2620, 6330), (2620, 6331), (2620, 6332)]"
proof -
  have h: "(0::int) \<le> 1" by simp
  have e: "grid_tiles 2619 6331 1 =
       [(2618, 6330), (2618, 6331), (2618, 6332),
        (2619, 6330), (2619, 6331), (2619, 6332),
        (2620, 6330), (2620, 6331), (2620, 6332)]"
    by (simp add: grid_tiles_def py_range_def upto.simps)
  from grid_tiles_complete [OF h, of 2619 6331] e show ?thesis by simp
qed

section \<open>Posterization\<close>

lemma posterize_lut_4: "posterize_lut 4 v = v AND NOT (mask 4)"
  by (simp add: posterize_lut_def mask_eq_exp_minus_1)

lemma and_not_mask_4: "(v :: u8) AND NOT (mask 4) = push_bit 4 (drop_bit 4 v)"
  by (rule bit_word_eqI) (auto simp: bit_simps)

lemma unat_posterize: "unat (posterize_lut 4 v) = 16 * (unat v div 16)"
proof -
  have "unat v div 16 < 16"
    using unsigned_less [of v, where 'a = nat] by simp
  then have lt: "16 * (unat v div 16) < 256" by simp
  have "unat (posterize_lut 4 v) = unat (16 * (v div 16))"
    by (simp add: posterize_lut_4 and_not_mask_4 push_bit_eq_mult drop_bit_eq_div mult.commute)
  also have "\<dots> = unat (16 :: u8) * unat (v div 16)"
    using lt by (subst unat_mult_lem [THEN iffD1]) (simp_all add: unat_div)
  finally show ?thesis by (simp add: unat_div)
qed

lemma posterize_255: "posterize_lut 4 255 = 240"
  by (simp add: posterize_lut_def)

lemma unat_level: "k < 16 \<Longrightarrow> unat (word_of_nat (16 * k) :: u8) = 16 * k"
  by (simp only: unat_of_nat) simp

lemma range_posterize_lut: "range (posterize_lut 4) = (\<lambda>k. word_of_nat (16 * k)) ` {0..<16}"
proof (rule set_eqI, rule iffI)
  fix x assume "x \<in> range (posterize_lut 4)"
  then obtain v where v: "x = posterize_lut 4 v" by blast
  have lt: "unat v div 16 < 16" using unsigned_less [of v, where 'a = nat] by simp
  have "x = word_of_nat (unat x)" by simp
  also have "\<dots> = word_of_nat (16 * (unat v div 16))" by (simp only: v unat_posterize)
  finally show "x \<in> (\<lambda>k. word_of_nat (16 * k)) ` {0..<16}" using lt by auto
next
  fix x :: u8 assume "x \<in> (\<lambda>k. word_of_nat (16 * k)) ` {0..<16}"
  then obtain k :: nat where k: "k < 16" "x = word_of_nat (16 * k)" by auto
  have u: "unat x = 16 * k" using k unat_level by blast
  have "unat (posterize_lut 4 x) = unat x" by (simp add: unat_posterize u)
  then have "posterize_lut 4 x = x" by (simp only: word_unat_eq_iff)
  then show "x \<in> range (posterize_lut 4)" by (metis rangeI)
qed

lemma card_range_posterize_lut: "card (range (posterize_lut 4)) = 16"
proof -
  have "inj_on (\<lambda>k. word_of_nat (16 * k) :: u8) {0..<16}"
  proof (rule inj_onI)
    fix a b :: nat assume a: "a \<in> {0..<16}" and b: "b \<in> {0..<16}"
      and e: "(word_of_nat (16 * a) :: u8) = word_of_nat (16 * b)"
    from a have ua: "unat (word_of_nat (16 * a) :: u8) = 16 * a" by (intro unat_level) simp
    from b have ub: "unat (word_of_nat (16 * b) :: u8) = 16 * b" by (intro unat_level) simp
    from e have "16 * a = 16 * b" by (metis ua ub)
    then show "a = b" by simp
  qed
  then have "card ((\<lambda>k. word_of_nat (16 * k) :: u8) ` {0..<16}) = card {0..<(16::nat)}"
    by (rule card_image)
  then show ?thesis by (simp only: range_posterize_lut card_atLeastLessThan)
qed

lemma posterize_le_240: "unat (posterize_lut 4 v) \<le> 240"
proof -
  have "unat v div 16 < 16" using unsigned_less [of v, where 'a = nat] by simp
  then show ?thesis by (simp add: unat_posterize)
qed

lemma not_255: "255 \<notin> range (posterize_lut 4)"
proof
  assume "255 \<in> range (posterize_lut 4)"
  then obtain v where "posterize_lut 4 v = 255" by (metis imageE)
  then have "unat (posterize_lut 4 v) = 255" by simp
  with posterize_le_240 [of v] show False by simp
qed

text \<open>
  C2 (as amended). The posterization keeps the four high bits of every channel value:
  \<open>v\<close> becomes \<open>16 * (v div 16)\<close>. The possible values after the stage are the
  16 levels \<open>0, 16, ..., 240\<close>; the largest is 240, and 255 is not among them.
\<close>

theorem posterize_levels:
  "unat (posterize_lut 4 v) = 16 * (unat v div 16)
   \<and> cells (posterize img 4) =
       map (map_rgb (\<lambda>c. word_of_nat (16 * (unat c div 16)))) (cells img)
   \<and> range (posterize_lut 4) = (\<lambda>k. word_of_nat (16 * k)) ` {0..<16}
   \<and> card (range (posterize_lut 4)) = 16
   \<and> 240 \<in> range (posterize_lut 4)
   \<and> 255 \<notin> range (posterize_lut 4)"
proof -
  have a: "posterize_lut 4 = (\<lambda>c. word_of_nat (16 * (unat c div 16)))"
  proof
    fix c :: u8
    have "posterize_lut 4 c = word_of_nat (unat (posterize_lut 4 c))" by simp
    then show "posterize_lut 4 c = word_of_nat (16 * (unat c div 16))"
      by (simp only: unat_posterize)
  qed
  have b: "cells (posterize img 4) =
       map (map_rgb (\<lambda>c. word_of_nat (16 * (unat c div 16)))) (cells img)"
    by (simp add: posterize_def map_pixels_def a)
  have c: "240 \<in> range (posterize_lut 4)"
    using posterize_255 by (metis rangeI)
  from unat_posterize b range_posterize_lut card_range_posterize_lut c not_255
  show ?thesis by (intro conjI)
qed

text \<open>
  C2 as stated fails: the channel value 255 is posterized to 240, whereas
  \<open>round(255 / 17) * 17\<close> is 255.
\<close>

theorem posterize_not_round17:
  "posterize_lut 4 255 = 240
   \<and> unat (posterize_lut 4 255) \<noteq> nat (round (real (unat (255 :: u8)) / 17)) * 17"
proof -
  have p: "posterize_lut 4 255 = 240" by (simp add: posterize_lut_def)
  have r: "round (255 / 17 :: real) = 15" by simp
  have u: "unat (240 :: u8) = 240" "unat (255 :: u8) = 255" by simp_all
  show ?thesis by (simp only: p r u) simp
qed

section \<open>Conversions between images and arrays, and the brightness boost\<close>

lemma map_pixels_comp: "map_pixels f (map_pixels g a) = map_pixels (f \<circ> g) a"
  by (simp add: map_pixels_def)

lemma map_rgb_comp: "map_rgb f (map_rgb g p) = map_rgb (f \<circ> g) p"
  by (cases p) (simp add: map_rgb_def)

lemma map_rgb_id: "map_rgb (\<lambda>c. c) p = p"
  by (cases p) (simp add: map_rgb_def)

lemma map_pixels_ident: "map_pixels (\<lambda>p. p) (a :: 'a raster) = a"
  by (simp add: map_pixels_def)

lemma np_clip_bounds: "0 \<le> np_clip x 0 255 \<and> np_clip x 0 255 \<le> 255"
  by (simp add: np_clip_def)

lemma unat_to_uint8:
  assumes "0 \<le> x" and "x \<le> 255"
  shows "unat (to_uint8 x) = nat \<lfloor>x\<rfloor>"
proof -
  have f: "0 \<le> \<lfloor>x\<rfloor>" "\<lfloor>x\<rfloor> < 256" using assms by (simp_all add: floor_less_iff)
  have "unat (to_uint8 x) = nat (uint (word_of_int \<lfloor>x\<rfloor> :: u8))"
    using assms by (simp add: to_uint8_def trunc_def)
  also have "\<dots> = nat (\<lfloor>x\<rfloor> mod 256)" by (simp add: uint_word_of_int)
  also have "\<dots> = nat \<lfloor>x\<rfloor>" using f by simp
  finally show ?thesis .
qed

lemma to_uint8_unsigned: "to_uint8 (unsigned c) = c"
proof -
  have e: "(unsigned c :: real) = of_int (uint c)" by (simp only: of_int_uint)
  have "0 \<le> (unsigned c :: real)" unfolding e by (simp only: of_int_0_le_iff uint_ge_0)
  moreover have "\<lfloor>unsigned c :: real\<rfloor> = uint c" by (simp only: e floor_of_int)
  ultimately show ?thesis by (simp add: to_uint8_def trunc_def)
qed

lemma to_uint8_roundtrip: "to_uint8 (real (unat c)) = c"
  using to_uint8_unsigned [of c] by simp

lemma astype_np_array: "astype_uint8 (np_array img) = img"
  by (simp add: astype_uint8_def np_array_def map_pixels_def map_rgb_comp comp_def
        to_uint8_unsigned map_rgb_id)

lemma floor_brightness: "\<lfloor>real n * 1.1 + 5\<rfloor> = int ((11 * n + 50) div 10)"
proof -
  have "real n * 1.1 + 5 = real (11 * n + 50) / real 10" by simp
  then show ?thesis by (simp only: floor_divide_of_nat_eq)
qed

lemma unat_brightness:
  "unat (to_uint8 (np_clip (real (unat c) * 1.1 + 5) 0 255)) = min 255 ((11 * unat c + 50) div 10)"
proof -
  define n where "n = unat c"
  define x where "x = real n * 1.1 + 5"
  have x0: "0 \<le> x" by (simp add: x_def)
  have fl: "\<lfloor>x\<rfloor> = int ((11 * n + 50) div 10)" unfolding x_def by (rule floor_brightness)
  have b: "0 \<le> np_clip x 0 255" "np_clip x 0 255 \<le> 255" using np_clip_bounds by simp_all
  have u: "unat (to_uint8 (np_clip x 0 255)) = nat \<lfloor>np_clip x 0 255\<rfloor>"
    using b by (rule unat_to_uint8)
  show ?thesis
  proof (cases "x \<le> 255")
    case True
    then have c: "np_clip x 0 255 = x" using x0 by (simp add: np_clip_def)
    from True have "\<lfloor>x\<rfloor> \<le> 255" by (simp add: floor_le_iff)
    then have "(11 * n + 50) div 10 \<le> 255" using fl by simp
    then show ?thesis using u c fl by (simp add: x_def n_def)
  next
    case False
    then have c: "np_clip x 0 255 = 255" by (simp add: np_clip_def)
    from False have "255 \<le> \<lfloor>x\<rfloor>" by (simp add: le_floor_iff)
    then have "255 \<le> (11 * n + 50) div 10" using fl by simp
    then show ?thesis using u c by (simp add: x_def n_def)
  qed
qed

lemma cells_brightness_boost:
  "cells (brightness_boost img) =
     map (map_rgb (\<lambda>c. to_uint8 (np_clip (real (unat c) * 1.1 + 5) 0 255))) (cells img)"
  by (simp add: brightness_boost_def astype_uint8_def np_array_def map_pixels_def
        map_rgb_comp comp_def)

lemma to_uint8_clip_158_9: "to_uint8 (np_clip 158.9 0 255) = 158"
  by (simp add: to_uint8_def np_clip_def trunc_def)

lemma brightness_139: "to_uint8 (np_clip (real (unat (139 :: u8)) * 1.1 + 5) 0 255) = 157"
  by (simp add: to_uint8_def np_clip_def trunc_def)

text \<open>
  C10. In the brightness stage every channel value is \<open>value * 1.1 + 5\<close> clamped to
  \<open>[0, 255]\<close> and then converted to 8 bits by dropping the fractional part, never by
  rounding to nearest: a clamped 158.9 becomes 158, and the channel value 139
  (157.9 after the boost) becomes 157.
\<close>

theorem brightness_boost_truncates:
  "cells (brightness_boost img) =
     map (map_rgb (\<lambda>c. to_uint8 (np_clip (real (unat c) * 1.1 + 5) 0 255))) (cells img)
   \<and> int (unat (to_uint8 (np_clip (real (unat c) * 1.1 + 5) 0 255))) =
       \<lfloor>np_clip (real (unat c) * 1.1 + 5) 0 255\<rfloor>
   \<and> unat (to_uint8 (np_clip (real (unat c) * 1.1 + 5) 0 255)) =
       min 255 ((11 * unat c + 50) div 10)
   \<and> to_uint8 (np_clip 158.9 0 255) = 158
   \<and> to_uint8 (np_clip (real (unat (139 :: u8)) * 1.1 + 5) 0 255) = 157"
proof -
  let ?x = "np_clip (real (unat c) * 1.1 + 5) 0 255"
  have b: "0 \<le> ?x" "?x \<le> 255" using np_clip_bounds by simp_all
  then have "unat (to_uint8 ?x) = nat \<lfloor>?x\<rfloor>" by (rule unat_to_uint8)
  moreover have "0 \<le> \<lfloor>?x\<rfloor>" using b(1) by simp
  ultimately have t: "int (unat (to_uint8 ?x)) = \<lfloor>?x\<rfloor>" by simp
  from cells_brightness_boost t unat_brightness to_uint8_clip_158_9 brightness_139
  show ?thesis by (intro conjI)
qed

section \<open>Rounding to binary32\<close>

lemma rne_of_int [simp]: "rne (of_int k) = k"
  by (simp add: rne_def)

lemma rne_numeral [simp]: "rne (numeral n) = numeral n"
  using rne_of_int [of "numeral n"] by simp

lemma rne_neg_numeral [simp]: "rne (- numeral n) = - numeral n"
  using rne_of_int [of "- numeral n"] by simp

lemma rne_0 [simp]: "rne 0 = 0"
  using rne_of_int [of 0] by simp

lemma rne_bounds: "\<lfloor>x\<rfloor> \<le> rne x \<and> rne x \<le> \<lfloor>x\<rfloor> + 1"
  by (simp add: rne_def Let_def)

lemma rne_mono: assumes "x \<le> y" shows "rne x \<le> rne y"
proof (cases "\<lfloor>x\<rfloor> < \<lfloor>y\<rfloor>")
  case True
  have "rne x \<le> \<lfloor>x\<rfloor> + 1" using rne_bounds by blast
  also have "\<dots> \<le> \<lfloor>y\<rfloor>" using True by simp
  also have "\<dots> \<le> rne y" using rne_bounds by blast
  finally show ?thesis .
next
  case False
  have "\<lfloor>x\<rfloor> \<le> \<lfloor>y\<rfloor>" using assms by (rule floor_mono)
  with False have e: "\<lfloor>x\<rfloor> = \<lfloor>y\<rfloor>" by simp
  then have "x - of_int \<lfloor>x\<rfloor> \<le> y - of_int \<lfloor>y\<rfloor>" using assms by simp
  then show ?thesis unfolding rne_def Let_def e by auto
qed


lemma round32_exp:
  assumes "2 powr of_int e \<le> \<bar>x\<bar>" and "\<bar>x\<bar> < 2 powr of_int (e + 1)"
  shows "round32 x = of_int (rne (x / 2 powr of_int (e - 23))) * 2 powr of_int (e - 23)"
proof -
  have pos: "0 < \<bar>x\<bar>" using assms(1) by (smt (verit) powr_gt_zero)
  then have nz: "x \<noteq> 0" by simp
  have "\<lfloor>log 2 \<bar>x\<bar>\<rfloor> = e"
    using assms pos by (simp add: floor_log_eq_powr_iff)
  then show ?thesis using nz by (simp add: round32_def Let_def)
qed

lemma two_powr_diff: "(2::real) powr of_int (int a - int b) = 2 ^ a / 2 ^ b"
proof -
  have "(2::real) powr of_int (int a - int b) = 2 powr (real a - real b)" by simp
  also have "\<dots> = 2 powr real a / 2 powr real b" by (rule powr_diff)
  finally show ?thesis by (simp add: powr_realpow)
qed

lemma round32_scaled_up:
  assumes "2 ^ 23 \<le> \<bar>x\<bar> * 2 ^ k" and "\<bar>x\<bar> * 2 ^ k < 2 ^ 24"
  shows "round32 x = of_int (rne (x * 2 ^ k)) / 2 ^ k"
proof -
  have a: "(2::real) powr of_int (int 23 - int k) = 2 ^ 23 / 2 ^ k" by (rule two_powr_diff)
  have b: "(2::real) powr of_int (int 23 - int k + 1) = 2 ^ 24 / 2 ^ k"
    using two_powr_diff [of 24 k] by (simp add: algebra_simps)
  have c: "(2::real) powr of_int (int 23 - int k - 23) = 1 / 2 ^ k"
    using two_powr_diff [of 0 k] by simp
  have "2 powr of_int (int 23 - int k) \<le> \<bar>x\<bar>"
    unfolding a using assms(1) by (simp add: field_simps)
  moreover have "\<bar>x\<bar> < 2 powr of_int (int 23 - int k + 1)"
    unfolding b using assms(2) by (simp add: field_simps)
  ultimately have "round32 x = of_int (rne (x / 2 powr of_int (int 23 - int k - 23)))
      * 2 powr of_int (int 23 - int k - 23)"
    by (rule round32_exp)
  then show ?thesis unfolding c by simp
qed

lemma round32_scaled_down:
  assumes "2 ^ 23 \<le> \<bar>x\<bar> / 2 ^ k" and "\<bar>x\<bar> / 2 ^ k < 2 ^ 24"
  shows "round32 x = of_int (rne (x / 2 ^ k)) * 2 ^ k"
proof -
  have a: "(2::real) powr of_int (int (23 + k) - int 0) = 2 ^ 23 * 2 ^ k"
    using two_powr_diff [of "23 + k" 0] by (simp add: power_add)
  have b: "(2::real) powr of_int (int (23 + k) - int 0 + 1) = 2 ^ 24 * 2 ^ k"
    using two_powr_diff [of "24 + k" 0] by (simp add: power_add algebra_simps)
  have c: "(2::real) powr of_int (int (23 + k) - int 0 - 23) = 2 ^ k"
    using two_powr_diff [of k 0] by simp
  have "2 powr of_int (int (23 + k) - int 0) \<le> \<bar>x\<bar>"
    unfolding a using assms(1) by (simp add: field_simps)
  moreover have "\<bar>x\<bar> < 2 powr of_int (int (23 + k) - int 0 + 1)"
    unfolding b using assms(2) by (simp add: field_simps)
  ultimately have "round32 x = of_int (rne (x / 2 powr of_int (int (23 + k) - int 0 - 23)))
      * 2 powr of_int (int (23 + k) - int 0 - 23)"
    by (rule round32_exp)
  then show ?thesis unfolding c by simp
qed

lemma round32_0 [simp]: "round32 0 = 0"
  by (simp add: round32_def)


lemma round32_of_int_exact:
  assumes "\<bar>m\<bar> \<le> 2 ^ 24"
  shows "round32 (of_int m) = of_int m"
proof (cases "m = 0")
  case True
  then show ?thesis by simp
next
  case False
  define q where "q = \<lfloor>log 2 \<bar>of_int m :: real\<bar>\<rfloor>"
  have pos: "0 < \<bar>of_int m :: real\<bar>" using False by simp
  have one: "1 \<le> \<bar>of_int m :: real\<bar>"
    using False by (metis abs_ge_zero linorder_not_le of_int_1_le_iff of_int_abs zabs_less_one_iff
        order_less_le)
  have q0: "0 \<le> q" unfolding q_def using one by (simp add: zero_le_log_cancel_iff)
  have "\<bar>of_int m :: real\<bar> \<le> 2 ^ 24"
    using assms by (metis of_int_abs of_int_le_iff of_int_numeral of_int_power)
  then have ub: "\<bar>of_int m :: real\<bar> \<le> 16777216" by simp
  have lb: "2 powr of_int q \<le> \<bar>of_int m :: real\<bar>"
    using pos unfolding q_def
    by (metis floor_log_eq_powr_iff one_less_numeral_iff semiring_norm(76))
  have q24: "q \<le> 24"
  proof (rule ccontr)
    assume "\<not> q \<le> 24"
    then have "(25 :: real) \<le> of_int q" by simp
    then have "(2::real) powr 25 \<le> 2 powr of_int q" by (intro powr_mono) simp_all
    with lb ub show False by simp
  qed
  have r: "round32 (of_int m) =
      of_int (rne (of_int m / 2 powr of_int (q - 23))) * 2 powr of_int (q - 23)"
    using False by (simp add: round32_def Let_def q_def)
  show ?thesis
  proof (cases "q \<le> 23")
    case True
    define k where "k = nat (23 - q)"
    have "of_int (q - 23) = - real k" using True by (simp add: k_def)
    then have p: "(2::real) powr of_int (q - 23) = 1 / 2 ^ k"
      by (simp add: powr_minus_divide powr_realpow)
    have "(of_int m :: real) / (1 / 2 ^ k) = of_int (m * 2 ^ k)" by simp
    then show ?thesis unfolding r p by (simp only: rne_of_int) simp
  next
    case False
    with q24 have q: "q = 24" by simp
    with lb have "2 ^ 24 \<le> \<bar>of_int m :: real\<bar>" by simp
    with \<open>\<bar>of_int m :: real\<bar> \<le> 2 ^ 24\<close> have "\<bar>of_int m :: real\<bar> = 2 ^ 24" by simp
    then have "\<bar>m\<bar> = 2 ^ 24"
      by (metis of_int_abs of_int_eq_iff of_int_numeral of_int_power)
    then have "m = 2 ^ 24 \<or> m = - (2 ^ 24)" by (simp add: abs_if split: if_splits)
    then show ?thesis
    proof
      assume "m = 2 ^ 24"
      then show ?thesis by (simp add: round32_scaled_down [where k = 1])
    next
      assume "m = - (2 ^ 24)"
      then show ?thesis by (simp add: round32_scaled_down [where k = 1])
    qed
  qed
qed

lemma round32_of_nat_exact: "n \<le> 2 ^ 24 \<Longrightarrow> round32 (real n) = real n"
  using round32_of_int_exact [of "int n"] by simp

lemma round32_numeral_exact:
  "numeral n \<le> (16777216 :: int) \<Longrightarrow> round32 (numeral n) = numeral n"
  using round32_of_int_exact [of "numeral n"] by simp

lemma round32_binade:
  assumes "2 powr of_int e \<le> x" and "x < 2 powr of_int (e + 1)"
  shows "2 powr of_int e \<le> round32 x \<and> round32 x \<le> 2 powr of_int (e + 1)"
proof -
  define s :: real where "s = 2 powr of_int (e - 23)"
  have s0: "0 < s" by (simp add: s_def)
  have x0: "0 < x" using assms(1) by (smt (verit) powr_gt_zero)
  have lo: "2 powr of_int e = 2 ^ 23 * s"
  proof -
    have "(2::real) powr of_int e = 2 powr (23 + of_int (e - 23))" by simp
    also have "\<dots> = 2 powr 23 * 2 powr of_int (e - 23)" by (rule powr_add)
    finally show ?thesis by (simp add: s_def)
  qed
  have hi: "2 powr of_int (e + 1) = 2 ^ 24 * s"
  proof -
    have "(2::real) powr of_int (e + 1) = 2 powr (24 + of_int (e - 23))"
      by (simp add: algebra_simps)
    also have "\<dots> = 2 powr 24 * 2 powr of_int (e - 23)" by (rule powr_add)
    finally show ?thesis by (simp add: s_def)
  qed
  have r: "round32 x = of_int (rne (x / s)) * s"
    using round32_exp [of e x] assms x0 by (simp add: s_def)
  have "2 ^ 23 \<le> x / s" using assms(1) s0 unfolding lo by (simp add: field_simps)
  then have "rne (2 ^ 23) \<le> rne (x / s)" by (rule rne_mono)
  then have a: "(2 ^ 23 :: int) \<le> rne (x / s)" by simp
  have "x / s \<le> 2 ^ 24" using assms(2) s0 unfolding hi by (simp add: field_simps)
  then have "rne (x / s) \<le> rne (2 ^ 24)" by (rule rne_mono)
  then have b: "rne (x / s) \<le> (2 ^ 24 :: int)" by simp
  from a have "(of_int (2 ^ 23) :: real) \<le> of_int (rne (x / s))" by (simp only: of_int_le_iff)
  then have "(2 ^ 23 :: real) \<le> of_int (rne (x / s))" by simp
  then have a': "2 ^ 23 * s \<le> of_int (rne (x / s)) * s" using s0 by simp
  from b have "(of_int (rne (x / s)) :: real) \<le> of_int (2 ^ 24)" by (simp only: of_int_le_iff)
  then have "(of_int (rne (x / s)) :: real) \<le> 2 ^ 24" by simp
  then have b': "of_int (rne (x / s)) * s \<le> 2 ^ 24 * s" using s0 by simp
  from a' b' show ?thesis unfolding r lo hi by simp
qed

lemma round32_mono:
  assumes "0 \<le> x" and "x \<le> y"
  shows "round32 x \<le> round32 y"
proof (cases "x = 0")
  case True
  show ?thesis
  proof (cases "y = 0")
    case True
    with \<open>x = 0\<close> show ?thesis by simp
  next
    case False
    then have y0: "0 < y" using assms True by simp
    define e where "e = \<lfloor>log 2 y\<rfloor>"
    have "2 powr of_int e \<le> y \<and> y < 2 powr of_int (e + 1)"
      using y0 unfolding e_def
      by (metis floor_log_eq_powr_iff of_int_1 of_int_add one_less_numeral_iff semiring_norm(76))
    then have "2 powr of_int e \<le> round32 y" using round32_binade by blast
    then have "0 \<le> round32 y" by (smt (verit) powr_gt_zero)
    with True show ?thesis by simp
  qed
next
  case False
  then have x0: "0 < x" using assms by simp
  then have y0: "0 < y" using assms by simp
  define ex where "ex = \<lfloor>log 2 x\<rfloor>"
  define ey where "ey = \<lfloor>log 2 y\<rfloor>"
  have bx: "2 powr of_int ex \<le> x \<and> x < 2 powr of_int (ex + 1)"
    using x0 unfolding ex_def
    by (metis floor_log_eq_powr_iff of_int_1 of_int_add one_less_numeral_iff semiring_norm(76))
  have bndy: "2 powr of_int ey \<le> y \<and> y < 2 powr of_int (ey + 1)"
    using y0 unfolding ey_def
    by (metis floor_log_eq_powr_iff of_int_1 of_int_add one_less_numeral_iff semiring_norm(76))
  have "log 2 x \<le> log 2 y" using x0 assms(2) by simp
  then have le: "ex \<le> ey" unfolding ex_def ey_def by (rule floor_mono)
  show ?thesis
  proof (cases "ex = ey")
    case True
    define s :: real where "s = 2 powr of_int (ex - 23)"
    have s0: "0 < s" by (simp add: s_def)
    have rx: "round32 x = of_int (rne (x / s)) * s"
      using round32_exp [of ex x] bx x0 by (simp add: s_def)
    have ry: "round32 y = of_int (rne (y / s)) * s"
      using round32_exp [of ey y] bndy y0 True by (simp add: s_def)
    have "x / s \<le> y / s" using assms(2) s0 by (simp add: divide_right_mono)
    then have "rne (x / s) \<le> rne (y / s)" by (rule rne_mono)
    then have "(of_int (rne (x / s)) :: real) \<le> of_int (rne (y / s))" by simp
    then show ?thesis unfolding rx ry using s0 by simp
  next
    case False
    with le have "ex + 1 \<le> ey" by simp
    then have "(2::real) powr of_int (ex + 1) \<le> 2 powr of_int ey"
      by (intro powr_mono) simp_all
    moreover have "round32 x \<le> 2 powr of_int (ex + 1)" using round32_binade bx by blast
    moreover have "2 powr of_int ey \<le> round32 y" using round32_binade bndy by blast
    ultimately show ?thesis by linarith
  qed
qed

lemma round32_double: "round32 (2 * x) = 2 * round32 x"
proof (cases "x = 0")
  case True
  then show ?thesis by simp
next
  case False
  then have p: "0 < \<bar>x\<bar>" by simp
  have "log 2 \<bar>2 * x\<bar> = log 2 (2 * \<bar>x\<bar>)" by (simp add: abs_mult)
  also have "\<dots> = log 2 2 + log 2 \<bar>x\<bar>" using p by (subst log_mult) simp_all
  finally have l: "log 2 \<bar>2 * x\<bar> = log 2 \<bar>x\<bar> + 1" by simp
  have f: "\<lfloor>log 2 \<bar>2 * x\<bar>\<rfloor> - 23 = (\<lfloor>log 2 \<bar>x\<bar>\<rfloor> - 23) + 1" unfolding l by simp
  have q: "(2::real) powr of_int (e + 1) = 2 * 2 powr of_int e" for e :: int
    by (simp add: powr_add)
  show ?thesis using False unfolding round32_def Let_def f q by simp
qed

lemma round32_eval_small:
  "x \<noteq> 0 \<Longrightarrow> \<bar>x\<bar> < 8388608 \<Longrightarrow> round32 x = round32 (2 * x) / 2"
  by (simp add: round32_double)

lemma round32_eval_mid:
  "8388608 \<le> \<bar>x\<bar> \<Longrightarrow> \<bar>x\<bar> < 16777216 \<Longrightarrow> round32 x = of_int (rne x)"
  using round32_scaled_up [of x 0] by simp

text \<open>
  With these rules the simplifier evaluates \<open>round32\<close> on a rational number: it doubles
  the argument until it has 24 bits before the binary point and rounds there.
\<close>

lemmas round32_eval = round32_eval_small round32_eval_mid rne_def Let_def

lemma round32_sqrt_ge:
  assumes "0 \<le> a" and "round32 a = a" and "a * a \<le> s"
  shows "a \<le> round32 (sqrt s)"
proof -
  have "a\<^sup>2 \<le> s" using assms(3) by (simp add: power2_eq_square)
  then have "a \<le> sqrt s" by (rule real_le_rsqrt)
  with assms(1) have "round32 a \<le> round32 (sqrt s)" by (rule round32_mono)
  then show ?thesis by (simp only: assms(2))
qed

lemma round32_sqrt_le:
  assumes "0 \<le> a" and "round32 a = a" and "0 \<le> s" and "s \<le> a * a"
  shows "round32 (sqrt s) \<le> a"
proof -
  have "s \<le> a\<^sup>2" using assms(4) by (simp add: power2_eq_square)
  with assms(1) have "sqrt s \<le> a" by (rule real_le_lsqrt)
  moreover have "0 \<le> sqrt s" using assms(3) by simp
  ultimately have "0 \<le> sqrt s" and "sqrt s \<le> a" by simp_all
  then have "round32 (sqrt s) \<le> round32 a" by (rule round32_mono)
  then show ?thesis by (simp only: assms(2))
qed

section \<open>The vibe influence\<close>

lemma vibe_influence_shift:
  assumes "np_mean (np_array vibe_small) = Some vm"
    and "np_mean (np_array posterized) = Some tm"
    and "linalg_norm (sub_rgb vm tm) > 20"
  shows "vibe_influence vibe_small posterized =
           map_pixels (\<lambda>p. map_rgb (\<lambda>v. to_uint8 (np_clip v 0 255))
                              (add_rgb (map_rgb (\<lambda>c. real (unat c)) p)
                                       (map_rgb (\<lambda>d. round32 (d * round32 0.15))
                                          (sub_rgb vm tm))))
             posterized"
  using assms
  by (simp add: vibe_influence_def Let_def astype_uint8_def np_array_def map_pixels_def
        map_rgb_comp comp_def)

lemma vibe_influence_no_shift:
  assumes "np_mean (np_array vibe_small) = Some vm"
    and "np_mean (np_array posterized) = Some tm"
    and "linalg_norm (sub_rgb vm tm) \<le> 20"
  shows "vibe_influence vibe_small posterized = posterized"
  using assms by (simp add: vibe_influence_def Let_def astype_np_array)

lemma vibe_influence_nan:
  assumes "np_mean (np_array vibe_small) = None \<or> np_mean (np_array posterized) = None"
  shows "vibe_influence vibe_small posterized = posterized"
  using assms by (auto simp: vibe_influence_def Let_def astype_np_array split: option.splits)

lemma unat_saturate:
  "unat (to_uint8 (np_clip x 0 255)) =
     (if x \<le> 0 then 0 else if 255 \<le> x then 255 else nat \<lfloor>x\<rfloor>)"
proof -
  have b: "0 \<le> np_clip x 0 255" "np_clip x 0 255 \<le> 255" using np_clip_bounds by simp_all
  have u: "unat (to_uint8 (np_clip x 0 255)) = nat \<lfloor>np_clip x 0 255\<rfloor>"
    using b by (rule unat_to_uint8)
  show ?thesis unfolding u by (simp add: np_clip_def)
qed

text \<open>A binary32 sum of natural numbers is exact as long as it stays within 24 bits.\<close>

lemma foldl_round32_nat:
  "a + sum_list ns \<le> 2 ^ 24 \<Longrightarrow>
     foldl (\<lambda>acc v. round32 (acc + v)) (real a) (map real ns) = real (a + sum_list ns)"
proof (induction ns arbitrary: a)
  case Nil
  then show ?case by simp
next
  case (Cons n ns)
  have le: "a + n \<le> 2 ^ 24" using Cons.prems by simp
  have "round32 (real a + real n) = real (a + n)"
    using round32_of_nat_exact [OF le] by simp
  moreover have "(a + n) + sum_list ns \<le> 2 ^ 24" using Cons.prems by simp
  ultimately show ?case using Cons.IH [of "a + n"] by (simp add: add.assoc)
qed

lemma f32_sum_nat: "sum_list ns \<le> 2 ^ 24 \<Longrightarrow> f32_sum (map real ns) = real (sum_list ns)"
  using foldl_round32_nat [of 0 ns] by (simp add: f32_sum_def)



text \<open>The mean colour of an image, channel by channel.\<close>

lemma fst_cells_np_array:
  "map fst (cells (np_array a)) = map (\<lambda>(r, g, b). real (unat r)) (cells a)"
  "map (fst \<circ> snd) (cells (np_array a)) = map (\<lambda>(r, g, b). real (unat g)) (cells a)"
  "map (snd \<circ> snd) (cells (np_array a)) = map (\<lambda>(r, g, b). real (unat b)) (cells a)"
  by (simp_all add: np_array_def map_pixels_def map_rgb_def split_def comp_def)

lemma np_mean_np_array:
  "cells a \<noteq> [] \<Longrightarrow>
   np_mean (np_array a) =
     Some (round32 (f32_sum (map (\<lambda>(r, g, b). real (unat r)) (cells a))
                    / round32 (real (length (cells a)))),
           round32 (f32_sum (map (\<lambda>(r, g, b). real (unat g)) (cells a))
                    / round32 (real (length (cells a)))),
           round32 (f32_sum (map (\<lambda>(r, g, b). real (unat b)) (cells a))
                    / round32 (real (length (cells a)))))"
  unfolding np_mean_def Let_def fst_cells_np_array
  by (simp add: np_array_def map_pixels_def)

section \<open>The shift stage\<close>




section \<open>The pipeline on single-colour images\<close>

lemma np_mean_flat:
  assumes "0 < w * h" and "w * h \<le> 65536"
  shows "np_mean (np_array (flat_image w h (r, g, b))) =
           Some (real (unat r), real (unat g), real (unat b))"
proof -
  have c: "unat c \<le> 255" for c :: u8
    using unsigned_less [of c, where 'a = nat] by simp
  have n: "round32 (real (w * h)) = real (w * h)"
    using assms(2) by (intro round32_of_nat_exact) simp
  have m: "round32 (real (w * h * unat c) / real (w * h)) = real (unat c)" for c :: u8
  proof -
    have "real (w * h * unat c) / real (w * h) = real (unat c)" using assms(1) by simp
    moreover have "round32 (real (unat c)) = real (unat c)"
      using c [of c] by (intro round32_of_nat_exact) simp
    ultimately show ?thesis by simp
  qed
  have le: "w * h * unat c \<le> 2 ^ 24" for c :: u8
  proof -
    have "w * h * unat c \<le> 65536 * 255" using assms(2) c [of c] by (rule mult_le_mono)
    then show ?thesis by simp
  qed
  have s: "f32_sum (replicate (w * h) (real (unat c))) = real (w * h * unat c)" for c :: u8
    using f32_sum_nat [of "replicate (w * h) (unat c)"] le [of c]
    by (simp add: sum_list_replicate)
  have ne: "cells (flat_image w h (r, g, b)) \<noteq> []"
    using assms(1) by (simp add: flat_image_def)
  show ?thesis
    unfolding np_mean_np_array [OF ne]
    using s [of r] s [of g] s [of b] n m [of r] m [of g] m [of b]
    by (simp add: flat_image_def del: of_nat_mult)
qed

lemma posterize_flat:
  "posterize (flat_image w h c) bits = flat_image w h (map_rgb (posterize_lut bits) c)"
  by (simp add: posterize_def flat_image_def map_pixels_def)

lemma resize_on_grey:
  "0 < w * h \<Longrightarrow> resize_lanczos pillow_on_grey (flat_image w h c) (32, 32) = flat_image 32 32 c"
  by (cases "w * h") (simp_all add: pillow_on_grey_def flat_image_def)

lemma posterized_on_grey:
  "posterize (enhance_color pillow_on_grey
     (gaussian_blur pillow_on_grey 1.0 (gaussian_blur pillow_on_grey 1.0 (flat_image w h c))) 1.8) 4
   = flat_image w h (map_rgb (posterize_lut 4) c)"
  by (simp add: pillow_on_grey_def posterize_flat)

lemma map_pixels_flat: "map_pixels f (flat_image w h c) = flat_image w h (f c)"
  by (simp add: map_pixels_def flat_image_def)

lemma brightness_boost_flat:
  "brightness_boost (flat_image w h c) =
     flat_image w h (map_rgb (\<lambda>c. to_uint8 (np_clip (real (unat c) * 1.1 + 5) 0 255)) c)"
  by (simp add: brightness_boost_def astype_uint8_def np_array_def map_pixels_def flat_image_def
        map_rgb_comp comp_def)

text \<open>The comparison of a binary32 distance with 20.\<close>

lemma norm_gt_20: "441 \<le> s \<Longrightarrow> 20 < round32 (sqrt s)"
  using round32_sqrt_ge [of 21 s] by (simp add: round32_numeral_exact)

lemma norm_le_20: "0 \<le> s \<Longrightarrow> s \<le> 400 \<Longrightarrow> round32 (sqrt s) \<le> 20"
  using round32_sqrt_le [of 20 s] by (simp add: round32_numeral_exact)

section \<open>The no-shift threshold\<close>

lemma skin_image_no_shift:
  assumes "np_mean (np_array (resize_lanczos L vibe (32, 32))) = Some vm"
    and "np_mean (np_array (posterize (enhance_color L
            (gaussian_blur L 1.0 (gaussian_blur L 1.0 tile)) 1.8) 4)) = Some tm"
    and "linalg_norm (sub_rgb vm tm) \<le> 20"
  shows "skin_image L tile vibe =
           brightness_boost (posterize (enhance_color L
             (gaussian_blur L 1.0 (gaussian_blur L 1.0 tile)) 1.8) 4)"
  using vibe_influence_no_shift [OF assms] by (simp add: skin_image_def Let_def)

lemma norm_15: "linalg_norm (sub_rgb (15, 15, 15) (0, 0, 0)) > 20"
  by (simp add: linalg_norm_def sub_rgb_def round32_eval norm_gt_20)

lemma norm_0: "linalg_norm (sub_rgb (0, 0, 0) (0, 0, 0)) \<le> 20"
  by (simp add: linalg_norm_def sub_rgb_def)

lemma skin_on_grey_shift:
  "skin_image pillow_on_grey (flat_image 256 256 (15, 15, 15)) (flat_image 256 256 (15, 15, 15)) =
     flat_image 256 256 (7, 7, 7)"
proof -
  let ?tile = "flat_image 256 256 (15, 15, 15)"
  let ?post = "flat_image 256 256 (0, 0, 0)"
  have p: "posterize (enhance_color pillow_on_grey
             (gaussian_blur pillow_on_grey 1.0 (gaussian_blur pillow_on_grey 1.0 ?tile)) 1.8) 4 = ?post"
    by (simp add: pillow_on_grey_def posterize_flat map_rgb_def posterize_lut_def)
  have v: "resize_lanczos pillow_on_grey ?tile (32, 32) = flat_image 32 32 (15, 15, 15)"
    by (simp add: resize_on_grey)
  have mv: "np_mean (np_array (flat_image 32 32 (15, 15, 15))) = Some (15, 15, 15)"
    by (simp add: np_mean_flat)
  have mp: "np_mean (np_array ?post) = Some (0, 0, 0)"
    by (simp add: np_mean_flat)
  have "vibe_influence (flat_image 32 32 (15, 15, 15)) ?post =
          map_pixels (\<lambda>p. map_rgb (\<lambda>v. to_uint8 (np_clip v 0 255))
                                 (add_rgb (map_rgb (\<lambda>c. real (unat c)) p)
                                          (map_rgb (\<lambda>d. round32 (d * round32 0.15))
                                             (sub_rgb (15, 15, 15) (0, 0, 0)))))
                ?post"
    using mv mp norm_15 by (rule vibe_influence_shift)
  also have "\<dots> = flat_image 256 256 (2, 2, 2)"
    by (simp add: map_pixels_flat map_rgb_def add_rgb_def sub_rgb_def to_uint8_def
          np_clip_def trunc_def round32_eval)
  finally have i: "vibe_influence (flat_image 32 32 (15, 15, 15)) ?post = flat_image 256 256 (2, 2, 2)" .
  have b: "brightness_boost (flat_image 256 256 (2, 2, 2)) = flat_image 256 256 (7, 7, 7)"
    by (simp add: brightness_boost_flat map_rgb_def to_uint8_def np_clip_def trunc_def)
  have "skin_image pillow_on_grey ?tile ?tile =
          brightness_boost (vibe_influence (resize_lanczos pillow_on_grey ?tile (32, 32))
            (posterize (enhance_color pillow_on_grey
              (gaussian_blur pillow_on_grey 1.0 (gaussian_blur pillow_on_grey 1.0 ?tile)) 1.8) 4))"
    by (simp add: skin_image_def Let_def)
  then show ?thesis by (simp only: p v i b)
qed

lemma posterized_grey_15:
  "posterize (enhance_color pillow_on_grey
     (gaussian_blur pillow_on_grey 1.0
        (gaussian_blur pillow_on_grey 1.0 (flat_image 256 256 (15, 15, 15)))) 1.8) 4 =
   flat_image 256 256 (0, 0, 0)"
  by (simp add: pillow_on_grey_def posterize_flat map_rgb_def posterize_lut_def)

lemma skin_on_grey_no_shift:
  "skin_image pillow_on_grey (flat_image 256 256 (15, 15, 15)) (flat_image 256 256 (0, 0, 0)) =
     flat_image 256 256 (5, 5, 5)"
proof -
  have v: "np_mean (np_array (resize_lanczos pillow_on_grey (flat_image 256 256 (0, 0, 0)) (32, 32)))
             = Some (0, 0, 0)"
    by (simp add: resize_on_grey np_mean_flat)
  have t: "np_mean (np_array (posterize (enhance_color pillow_on_grey
             (gaussian_blur pillow_on_grey 1.0
                (gaussian_blur pillow_on_grey 1.0 (flat_image 256 256 (15, 15, 15)))) 1.8) 4))
             = Some (0, 0, 0)"
    by (simp only: posterized_grey_15) (simp add: np_mean_flat)
  have b: "brightness_boost (flat_image 256 256 (0, 0, 0)) = flat_image 256 256 (5, 5, 5)"
    by (simp add: brightness_boost_flat map_rgb_def to_uint8_def np_clip_def trunc_def)
  show ?thesis
    by (simp only: skin_image_no_shift [OF v t norm_0] posterized_grey_15 b)
qed

text \<open>
  C1 as stated fails. The tile is 256 x 256 of the single grey (15, 15, 15); it is
  posterized to black, so its mean colour moves by more than 20 and the run with the tile
  as its own vibe does shift. A black vibe image is at distance 0 from the posterized
  tile and gives no shift. The two outputs differ: (5, 5, 5) against (7, 7, 7).
\<close>

theorem no_shift_not_same_as_tile_vibe:
  "np_mean (np_array (resize_lanczos pillow_on_grey (flat_image 256 256 (0, 0, 0)) (32, 32)))
     = Some (0, 0, 0)
   \<and> np_mean (np_array (posterize (enhance_color pillow_on_grey
         (gaussian_blur pillow_on_grey 1.0
            (gaussian_blur pillow_on_grey 1.0 (flat_image 256 256 (15, 15, 15)))) 1.8) 4))
     = Some (0, 0, 0)
   \<and> linalg_norm (sub_rgb (0, 0, 0) (0, 0, 0)) \<le> 20
   \<and> skin_image pillow_on_grey (flat_image 256 256 (15, 15, 15)) (flat_image 256 256 (0, 0, 0))
     \<noteq> skin_image pillow_on_grey (flat_image 256 256 (15, 15, 15))
         (flat_image 256 256 (15, 15, 15))"
proof -
  have v: "np_mean (np_array (resize_lanczos pillow_on_grey (flat_image 256 256 (0, 0, 0)) (32, 32)))
             = Some (0, 0, 0)"
    by (simp add: resize_on_grey np_mean_flat)
  have t: "np_mean (np_array (posterize (enhance_color pillow_on_grey
             (gaussian_blur pillow_on_grey 1.0
                (gaussian_blur pillow_on_grey 1.0 (flat_image 256 256 (15, 15, 15)))) 1.8) 4))
             = Some (0, 0, 0)"
    by (simp only: posterized_grey_15) (simp add: np_mean_flat)
  have n: "flat_image 256 256 (5, 5, 5) \<noteq> flat_image 256 256 (7, 7, 7)"
    by (simp add: flat_image_def)
  have "skin_image pillow_on_grey (flat_image 256 256 (15, 15, 15)) (flat_image 256 256 (0, 0, 0))
     \<noteq> skin_image pillow_on_grey (flat_image 256 256 (15, 15, 15))
         (flat_image 256 256 (15, 15, 15))"
    by (simp only: skin_on_grey_no_shift skin_on_grey_shift n not_False_eq_True)
  with v t norm_0 show ?thesis by (intro conjI)
qed

text \<open>
  C1 (as amended). For every tile and every vibe image whose mean colour (after the
  32 x 32 downscale) is within Euclidean distance 20 of the posterized tile's mean colour,
  the means and the distance being the binary32 numbers that the code computes, the shift
  stage is a no-op: the output is the brightness boost of the posterized tile. It is
  pixel-identical to the output of the run with the tile as its own vibe whenever the
  downscaled tile's mean colour is within that distance of the posterized tile's mean
  colour as well.
\<close>

theorem no_shift_threshold:
  assumes "posterized = posterize (enhance_color L
              (gaussian_blur L 1.0 (gaussian_blur L 1.0 tile)) 1.8) 4"
    and "np_mean (np_array posterized) = Some tileMean"
    and "np_mean (np_array (resize_lanczos L vibe (32, 32))) = Some vibeMean"
    and "linalg_norm (sub_rgb vibeMean tileMean) \<le> 20"
  shows "skin_image L tile vibe = brightness_boost posterized
       \<and> (\<forall>ownMean. np_mean (np_array (resize_lanczos L tile (32, 32))) = Some ownMean
              \<and> linalg_norm (sub_rgb ownMean tileMean) \<le> 20
            \<longrightarrow> skin_image L tile vibe = skin_image L tile tile)"
proof -
  have a: "skin_image L tile vibe = brightness_boost posterized"
    unfolding assms(1) using assms(3) assms(2) [unfolded assms(1)] assms(4)
    by (rule skin_image_no_shift)
  have "skin_image L tile tile = brightness_boost posterized"
    if "np_mean (np_array (resize_lanczos L tile (32, 32))) = Some ownMean"
      and "linalg_norm (sub_rgb ownMean tileMean) \<le> 20" for ownMean
    unfolding assms(1) using that(1) assms(2) [unfolded assms(1)] that(2)
    by (rule skin_image_no_shift)
  with a show ?thesis by simp
qed

theorem no_shift_threshold_witness:
  "linalg_norm (sub_rgb (20, 20, 20) (16, 16, 16)) \<le> 20
   \<and> linalg_norm (sub_rgb (16, 16, 16) (16, 16, 16)) \<le> 20
   \<and> skin_image pillow_on_grey (flat_image 256 256 (16, 16, 16)) (flat_image 256 256 (20, 20, 20))
       = flat_image 256 256 (22, 22, 22)
   \<and> skin_image pillow_on_grey (flat_image 256 256 (16, 16, 16)) (flat_image 256 256 (20, 20, 20))
       = skin_image pillow_on_grey (flat_image 256 256 (16, 16, 16))
           (flat_image 256 256 (16, 16, 16))"
proof -
  let ?tile = "flat_image 256 256 (16, 16, 16)"
  let ?vibe = "flat_image 256 256 (20, 20, 20)"
  have p: "?tile = posterize (enhance_color pillow_on_grey
             (gaussian_blur pillow_on_grey 1.0 (gaussian_blur pillow_on_grey 1.0 ?tile)) 1.8) 4"
    by (simp add: pillow_on_grey_def posterize_flat map_rgb_def posterize_lut_def)
  have t: "np_mean (np_array ?tile) = Some (16, 16, 16)"
    by (simp add: np_mean_flat)
  have v: "np_mean (np_array (resize_lanczos pillow_on_grey ?vibe (32, 32))) = Some (20, 20, 20)"
    by (simp add: resize_on_grey np_mean_flat)
  have own: "np_mean (np_array (resize_lanczos pillow_on_grey ?tile (32, 32))) = Some (16, 16, 16)"
    by (simp add: resize_on_grey np_mean_flat)
  have d: "linalg_norm (sub_rgb (20, 20, 20) (16, 16, 16)) \<le> 20"
    by (simp add: linalg_norm_def sub_rgb_def round32_eval norm_le_20)
  have d': "linalg_norm (sub_rgb (16, 16, 16) (16, 16, 16)) \<le> 20"
    by (simp add: linalg_norm_def sub_rgb_def)
  have b: "brightness_boost ?tile = flat_image 256 256 (22, 22, 22)"
    by (simp add: brightness_boost_flat map_rgb_def to_uint8_def np_clip_def trunc_def)
  note th = no_shift_threshold [OF p t v d]
  from th have r: "skin_image pillow_on_grey ?tile ?vibe = flat_image 256 256 (22, 22, 22)"
    by (simp only: b)
  from th own d' have "skin_image pillow_on_grey ?tile ?vibe = skin_image pillow_on_grey ?tile ?tile"
    by blast
  with d d' r show ?thesis by (intro conjI)
qed

section \<open>Dimensions\<close>

lemma size_map_pixels: "width (map_pixels f a) = width a \<and> height (map_pixels f a) = height a"
  by (simp add: map_pixels_def)

lemma size_vibe_influence:
  "width (vibe_influence v p) = width p \<and> height (vibe_influence v p) = height p"
  by (simp add: vibe_influence_def Let_def astype_uint8_def np_array_def map_pixels_def
        split: option.splits)

lemma size_brightness_boost:
  "width (brightness_boost a) = width a \<and> height (brightness_boost a) = height a"
  by (simp add: brightness_boost_def astype_uint8_def np_array_def map_pixels_def)

lemma size_posterize: "width (posterize a bits) = width a \<and> height (posterize a bits) = height a"
  by (simp add: posterize_def map_pixels_def)

text \<open>
  C7. For every tile image and every vibe image, of any dimensions, the image produced
  by the pipeline has the width and height of the input tile. Pillow's filter and
  colour enhancement return an image of the size of their argument; that is the
  hypothesis on the library.
\<close>

theorem skin_image_dimensions:
  assumes "\<And>radius img. width (gaussian_blur L radius img) = width img
                        \<and> height (gaussian_blur L radius img) = height img"
    and "\<And>img factor. width (enhance_color L img factor) = width img
                        \<and> height (enhance_color L img factor) = height img"
  shows "width (skin_image L tile vibe) = width tile
       \<and> height (skin_image L tile vibe) = height tile"
  by (simp add: skin_image_def Let_def size_brightness_boost size_vibe_influence
        size_posterize assms)

theorem skin_image_dimensions_witness:
  "width (skin_image pillow_on_grey (flat_image 256 256 (15, 15, 15)) (flat_image 640 480 (0, 0, 0)))
     = 256
   \<and> height (skin_image pillow_on_grey (flat_image 256 256 (15, 15, 15))
        (flat_image 640 480 (0, 0, 0))) = 256"
proof -
  have b: "\<And>radius img. width (gaussian_blur pillow_on_grey radius img) = width img
                        \<and> height (gaussian_blur pillow_on_grey radius img) = height img"
    by (simp add: pillow_on_grey_def)
  have e: "\<And>img factor. width (enhance_color pillow_on_grey img factor) = width img
                        \<and> height (enhance_color pillow_on_grey img factor) = height img"
    by (simp add: pillow_on_grey_def)
  from skin_image_dimensions [of pillow_on_grey "flat_image 256 256 (15, 15, 15)"
      "flat_image 640 480 (0, 0, 0)", OF b e]
  show ?thesis by (simp add: flat_image_def)
qed

section \<open>Channel bounds\<close>

lemma channel_le_255: "unat (c :: u8) \<le> 255"
  using unsigned_less [of c, where 'a = nat] by simp

lemma cells_vibe_influence:
  "vibe_influence vibe_small posterized = posterized
   \<or> (\<exists>shift. cells (vibe_influence vibe_small posterized) =
         map (\<lambda>p. map_rgb (\<lambda>v. to_uint8 (np_clip v 0 255))
                     (add_rgb (map_rgb (\<lambda>c. real (unat c)) p) shift))
           (cells posterized))"
proof (cases "np_mean (np_array vibe_small)")
  case None
  then show ?thesis using vibe_influence_nan by blast
next
  case (Some vm)
  note vm = this
  show ?thesis
  proof (cases "np_mean (np_array posterized)")
    case None
    then show ?thesis using vibe_influence_nan by blast
  next
    case (Some tm)
    show ?thesis
    proof (cases "linalg_norm (sub_rgb vm tm) > 20")
      case True
      from vibe_influence_shift [OF vm Some True]
      have "cells (vibe_influence vibe_small posterized) =
         map (\<lambda>p. map_rgb (\<lambda>v. to_uint8 (np_clip v 0 255))
                     (add_rgb (map_rgb (\<lambda>c. real (unat c)) p)
                        (map_rgb (\<lambda>d. round32 (d * round32 0.15)) (sub_rgb vm tm))))
           (cells posterized)"
        by (simp add: map_pixels_def)
      then show ?thesis by blast
    next
      case False
      then have "linalg_norm (sub_rgb vm tm) \<le> 20" by simp
      from vibe_influence_no_shift [OF vm Some this] show ?thesis by simp
    qed
  qed
qed

lemma round32_1_8: "round32 1.8 = 15099494 / 2 ^ 23"
  by (simp add: round32_eval)

lemma saturate_cases:
  "to_uint8 (np_clip x 0 255) = (if x \<le> 0 then 0 else if 255 \<le> x then 255 else to_uint8 x)"
  by (simp add: np_clip_def to_uint8_def trunc_def)

lemma blend_channel_1_8:
  "blend_channel (round32 1.8) l c =
     to_uint8 (np_clip (round32 (real (unat l)
        + round32 (round32 1.8 * (real (unat c) - real (unat l))))) 0 255)"
proof -
  have "\<not> (0 \<le> round32 1.8 \<and> round32 1.8 \<le> 1)" using round32_1_8 by simp
  then show ?thesis
    unfolding blend_channel_def Let_def saturate_cases by (simp only: if_False)
qed

lemma cells_color_enhance:
  "cells (color_enhance img 1.8) =
     map (\<lambda>p. map_rgb (\<lambda>c. to_uint8 (np_clip (round32 (real (unat (rgb2l p))
                  + round32 (round32 1.8 * (real (unat c) - real (unat (rgb2l p)))))) 0 255)) p)
       (cells img)"
proof -
  have a: "round32 1.8 \<noteq> 0" "round32 1.8 \<noteq> 1" using round32_1_8 by simp_all
  have "cells (color_enhance img 1.8) =
          map2 (\<lambda>p q. case (p, q) of ((r1, g1, b1), (r2, g2, b2)) \<Rightarrow>
                                (blend_channel (round32 1.8) r1 r2,
                                 blend_channel (round32 1.8) g1 g2,
                                 blend_channel (round32 1.8) b1 b2))
            (map (\<lambda>p. (rgb2l p, rgb2l p, rgb2l p)) (cells img)) (cells img)"
    using a by (simp add: color_enhance_def blend_def Let_def degenerate_def map_pixels_def)
  also have "\<dots> = map (\<lambda>p. map_rgb (\<lambda>c. blend_channel (round32 1.8) (rgb2l p) c) p) (cells img)"
    by (induction "cells img") (auto simp: zip_map1 map_rgb_def split_def zip_same_conv_map)
  finally show ?thesis by (simp only: blend_channel_1_8)
qed

lemma posterize_lut_le: "unat (posterize_lut 4 c) \<le> unat c"
  by (simp add: unat_posterize)

lemma color_enhance_flat:
  "color_enhance (flat_image w h c) 1.8 =
     flat_image w h
       (map_rgb (\<lambda>v. to_uint8 (np_clip (round32 (real (unat (rgb2l c))
                   + round32 (round32 1.8 * (real (unat v) - real (unat (rgb2l c)))))) 0 255)) c)"
proof -
  have a: "round32 1.8 \<noteq> 0" "round32 1.8 \<noteq> 1" using round32_1_8 by simp_all
  have "width (color_enhance (flat_image w h c) 1.8) = w"
    "height (color_enhance (flat_image w h c) 1.8) = h"
    using a by (simp_all add: color_enhance_def blend_def Let_def degenerate_def map_pixels_def
        flat_image_def)
  moreover have "cells (color_enhance (flat_image w h c) 1.8) =
      replicate (w * h) (map_rgb (\<lambda>v. to_uint8 (np_clip (round32 (real (unat (rgb2l c))
                   + round32 (round32 1.8 * (real (unat v) - real (unat (rgb2l c)))))) 0 255)) c)"
    unfolding cells_color_enhance by (simp add: flat_image_def)
  ultimately show ?thesis by (simp add: flat_image_def)
qed

lemma resize_on_flat:
  "0 < w * h \<Longrightarrow> resize_lanczos pillow_on_flat (flat_image w h c) (32, 32) = flat_image 32 32 c"
  by (cases "w * h") (simp_all add: pillow_on_flat_def flat_image_def)

lemma rgb2l_example: "rgb2l (10, 250, 30) = 153"
  by (simp add: rgb2l_def)

lemma saturated_example:
  "map_rgb (\<lambda>v. to_uint8 (np_clip (round32 (real (unat (rgb2l (10, 250, 30)))
                   + round32 (round32 1.8 * (real (unat v) - real (unat (rgb2l (10, 250, 30))))))) 0 255))
     (10 :: u8, 250, 30) = (0, 255, 0)"
  unfolding rgb2l_example
  by (simp add: map_rgb_def round32_eval np_clip_def to_uint8_def trunc_def)

lemma norm_example: "linalg_norm (sub_rgb (10, 250, 30) (0, 240, 0)) > 20"
  by (simp add: linalg_norm_def sub_rgb_def round32_eval norm_gt_20)

text \<open>
  C6. For every input image, every channel value of every pixel lies in \<open>[0, 255]\<close>
  after each of the five stages (smoothing, saturation, posterization, vibe shift,
  brightness boost). The three stages whose arithmetic can leave the range clamp: the
  saturation boost, which is Pillow's blend of the luminance with the pixel by the factor
  1.8, the vibe shift and the brightness boost all end in the conversion that takes a
  value at or below 0 to 0, a value at or above 255 to 255 and any other value to its
  integer part; no value is reduced modulo 256. The posterization clears bits and never
  raises a value.
\<close>

theorem channel_bounds:
  assumes "\<And>img factor. enhance_color L img factor = color_enhance img factor"
    and "smoothed = gaussian_blur L 1.0 (gaussian_blur L 1.0 tile)"
    and "saturated = enhance_color L smoothed 1.8"
    and "posterized = posterize saturated 4"
    and "influenced = vibe_influence (resize_lanczos L vibe (32, 32)) posterized"
    and "result = brightness_boost influenced"
  shows "result = skin_image L tile vibe
       \<and> (\<forall>c \<in> set (channels smoothed @ channels saturated @ channels posterized
                     @ channels influenced @ channels result). 0 \<le> uint c \<and> uint c \<le> 255)
       \<and> cells saturated =
            map (\<lambda>p. map_rgb (\<lambda>c. to_uint8 (np_clip
                                 (round32 (real (unat (rgb2l p))
                                    + round32 (round32 1.8
                                        * (real (unat c) - real (unat (rgb2l p))))))
                                 0 255)) p)
              (cells smoothed)
       \<and> cells posterized = map (map_rgb (posterize_lut 4)) (cells saturated)
       \<and> (\<forall>c. unat (posterize_lut 4 c) \<le> unat c)
       \<and> (influenced = posterized
          \<or> (\<exists>shift. cells influenced =
                map (\<lambda>p. map_rgb (\<lambda>v. to_uint8 (np_clip v 0 255))
                            (add_rgb (map_rgb (\<lambda>c. real (unat c)) p) shift))
                  (cells posterized)))
       \<and> cells result =
            map (map_rgb (\<lambda>c. to_uint8 (np_clip (real (unat c) * 1.1 + 5) 0 255)))
              (cells influenced)
       \<and> (\<forall>x. unat (to_uint8 (np_clip x 0 255)) =
               (if x \<le> 0 then 0 else if 255 \<le> x then 255 else nat \<lfloor>x\<rfloor>))"
proof -
  have a: "result = skin_image L tile vibe"
    by (simp add: skin_image_def Let_def assms(2-6))
  have b: "\<forall>c \<in> set (channels smoothed @ channels saturated @ channels posterized
                     @ channels influenced @ channels result). 0 \<le> uint c \<and> uint c \<le> 255"
  proof
    fix c :: u8
    have "uint c < 256" using uint_bounded [of c] by simp
    then show "0 \<le> uint c \<and> uint c \<le> 255" by simp
  qed
  have s: "cells saturated =
            map (\<lambda>p. map_rgb (\<lambda>c. to_uint8 (np_clip
                                 (round32 (real (unat (rgb2l p))
                                    + round32 (round32 1.8
                                        * (real (unat c) - real (unat (rgb2l p))))))
                                 0 255)) p)
              (cells smoothed)"
    unfolding assms(3) assms(1) by (rule cells_color_enhance)
  have p: "cells posterized = map (map_rgb (posterize_lut 4)) (cells saturated)"
    unfolding assms(4) by (simp add: posterize_def map_pixels_def)
  have q: "\<forall>c. unat (posterize_lut 4 c) \<le> unat c"
    using posterize_lut_le by blast
  have c: "influenced = posterized
          \<or> (\<exists>shift. cells influenced =
                map (\<lambda>p. map_rgb (\<lambda>v. to_uint8 (np_clip v 0 255))
                            (add_rgb (map_rgb (\<lambda>c. real (unat c)) p) shift))
                  (cells posterized))"
    unfolding assms(5) by (rule cells_vibe_influence)
  have d: "cells result =
            map (map_rgb (\<lambda>c. to_uint8 (np_clip (real (unat c) * 1.1 + 5) 0 255)))
              (cells influenced)"
    unfolding assms(6) by (rule cells_brightness_boost)
  have e: "\<forall>x. unat (to_uint8 (np_clip x 0 255)) =
               (if x \<le> 0 then 0 else if 255 \<le> x then 255 else nat \<lfloor>x\<rfloor>)"
    using unat_saturate by blast
  from a b s p q c d e show ?thesis by (intro conjI)
qed

text \<open>
  The pipeline on a tile of the single colour (10, 250, 30), of luminance 153. The
  saturation boost computes -104.4, 327.6 and -68.4 and clamps them to (0, 255, 0); the
  same values reduced modulo 256 would be 152, 71 and 188. The brightness boost computes
  270.1 for the green value 241 and clamps it to 255, where a reduction modulo 256 would
  give 14.
\<close>

theorem channel_bounds_witness:
  "cells (enhance_color pillow_on_flat (flat_image 256 256 (10, 250, 30)) 1.8) =
     replicate (256 * 256) (0, 255, 0)
   \<and> to_uint8 (round32 (153 + round32 (round32 1.8 * (10 - 153)))) = 152
   \<and> to_uint8 (round32 (153 + round32 (round32 1.8 * (250 - 153)))) = 71
   \<and> skin_image pillow_on_flat (flat_image 256 256 (10, 250, 30))
       (flat_image 256 256 (10, 250, 30)) = flat_image 256 256 (6, 255, 9)
   \<and> to_uint8 (np_clip (real (unat (241 :: u8)) * 1.1 + 5) 0 255) = 255
   \<and> to_uint8 (real (unat (241 :: u8)) * 1.1 + 5) = 14"
proof -
  let ?tile = "flat_image 256 256 (10, 250, 30)"
  let ?sat = "flat_image 256 256 (0, 255, 0)"
  let ?post = "flat_image 256 256 (0, 240, 0)"
  let ?infl = "flat_image 256 256 (1, 241, 4)"
  have g: "gaussian_blur pillow_on_flat 1.0 (gaussian_blur pillow_on_flat 1.0 ?tile) = ?tile"
    by (simp add: pillow_on_flat_def)
  have e: "enhance_color pillow_on_flat img factor = color_enhance img factor" for img factor
    by (simp add: pillow_on_flat_def)
  have s: "enhance_color pillow_on_flat ?tile 1.8 = ?sat"
    unfolding e color_enhance_flat saturated_example ..
  have p: "posterize ?sat 4 = ?post"
    by (simp add: posterize_flat map_rgb_def posterize_lut_def)
  have v: "resize_lanczos pillow_on_flat ?tile (32, 32) = flat_image 32 32 (10, 250, 30)"
    by (simp add: resize_on_flat)
  have mv: "np_mean (np_array (flat_image 32 32 (10, 250, 30))) = Some (10, 250, 30)"
    using np_mean_flat [of 32 32 10 250 30] by simp
  have mp: "np_mean (np_array ?post) = Some (0, 240, 0)"
    using np_mean_flat [of 256 256 0 240 0] by simp
  have "vibe_influence (flat_image 32 32 (10, 250, 30)) ?post =
          map_pixels (\<lambda>p. map_rgb (\<lambda>v. to_uint8 (np_clip v 0 255))
                                 (add_rgb (map_rgb (\<lambda>c. real (unat c)) p)
                                    (map_rgb (\<lambda>d. round32 (d * round32 0.15))
                                       (sub_rgb (10, 250, 30) (0, 240, 0)))))
                ?post"
    using mv mp norm_example by (rule vibe_influence_shift)
  also have "\<dots> = ?infl"
    by (simp add: map_pixels_flat map_rgb_def add_rgb_def sub_rgb_def to_uint8_def
          np_clip_def trunc_def round32_eval)
  finally have i: "vibe_influence (flat_image 32 32 (10, 250, 30)) ?post = ?infl" .
  have b: "brightness_boost ?infl = flat_image 256 256 (6, 255, 9)"
    by (simp add: brightness_boost_flat map_rgb_def to_uint8_def np_clip_def trunc_def)
  note th = channel_bounds [of pillow_on_flat, OF e refl refl refl refl refl, of ?tile ?tile]
  from th have r: "skin_image pillow_on_flat ?tile ?tile = flat_image 256 256 (6, 255, 9)"
    by (simp only: g s p v i b)
  from th have "cells (enhance_color pillow_on_flat
                   (gaussian_blur pillow_on_flat 1.0 (gaussian_blur pillow_on_flat 1.0 ?tile)) 1.8) =
            map (\<lambda>p. map_rgb (\<lambda>c. to_uint8 (np_clip
                                 (round32 (real (unat (rgb2l p))
                                    + round32 (round32 1.8
                                        * (real (unat c) - real (unat (rgb2l p))))))
                                 0 255)) p)
              (cells (gaussian_blur pillow_on_flat 1.0 (gaussian_blur pillow_on_flat 1.0 ?tile)))"
    by blast
  then have c: "cells (enhance_color pillow_on_flat ?tile 1.8) = replicate (256 * 256) (0, 255, 0)"
    unfolding g by (simp only: flat_image_def raster.select_convs map_replicate saturated_example)
  have w1: "to_uint8 (round32 (153 + round32 (round32 1.8 * (10 - 153)))) = 152"
    by (simp add: round32_eval to_uint8_def trunc_def)
  have w2: "to_uint8 (round32 (153 + round32 (round32 1.8 * (250 - 153)))) = 71"
    by (simp add: round32_eval to_uint8_def trunc_def)
  have w3: "to_uint8 (np_clip (real (unat (241 :: u8)) * 1.1 + 5) 0 255) = 255"
    by (simp add: to_uint8_def trunc_def np_clip_def)
  have w4: "to_uint8 (real (unat (241 :: u8)) * 1.1 + 5) = 14"
    by (simp add: to_uint8_def trunc_def)
  from c w1 w2 r w3 w4 show ?thesis by (intro conjI)
qed

end
